theory Spec2Isabelle
  imports Main
begin

section \<open>Data model of the DolbyIO subsystem\<close>

text \<open>
  Identifiers are engine strings (\<open>FString\<close>); they are only compared and used as
  \<open>TMap\<close> keys, so they are modelled as strings with HOL equality for the engine's
  comparison.  A \<open>TMap\<close> is a partial function: \<open>Find\<close> is application,
  \<open>Emplace\<close> is an update, \<open>Remove\<close> sets the key back to \<open>None\<close>.
\<close>

type_synonym FString = string

type_synonym UMaterialInstanceDynamic = nat

type_synonym UTexture2D = nat

record FDolbyIOVideoTrack =
  TrackID :: FString
  ParticipantID :: FString

record FDolbyIOParticipantInfo =
  UserID :: FString
  Name :: FString
  ExternalID :: FString
  InfoStatus :: FString


text \<open>
  The closures handed to \<open>FVideoSink::OnTextureCreated\<close>: the one built by
  \<open>Handle(const remote_video_track_added&)\<close>, which captures the track, and the one
  built by \<open>ProcessBufferedVideoTracks\<close>, which captures the participant and the
  buffered track.
\<close>

datatype FOnTextureCreated =
  AddedLambda FDolbyIOVideoTrack
| BufferedLambda FString FDolbyIOVideoTrack

text \<open>
  Modelled from the spec: \<open>FVideoSink\<close> (Video/DolbyIOVideoSink.h) is not among the
  sources.  It is the track's renderable surface of the glossary: the texture is absent
  until the surface is created, and the sink remembers the materials bound to it and the
  closures waiting for the surface.
\<close>

record FVideoSink =
  Texture :: "UTexture2D option"
  OnTexCreated :: "FOnTextureCreated list"
  Materials :: "UMaterialInstanceDynamic set"

text \<open>Modelled from the spec: \<open>std::make_shared<FVideoSink>(TrackID)\<close>, a sink with no surface yet.\<close>

definition make_FVideoSink :: FVideoSink where
  "make_FVideoSink = \<lparr>Texture = None, OnTexCreated = [], Materials = {}\<rparr>"

text \<open>Modelled from the spec: \<open>FVideoSink::BindMaterial\<close> records the material in the sink.\<close>

definition FVideoSink_BindMaterial :: "UMaterialInstanceDynamic \<Rightarrow> FVideoSink \<Rightarrow> FVideoSink" where
  "FVideoSink_BindMaterial Material Sink = Sink\<lparr>Materials := insert Material (Materials Sink)\<rparr>"

text \<open>Modelled from the spec: \<open>FVideoSink::UnbindMaterial\<close> forgets the material.\<close>

definition FVideoSink_UnbindMaterial :: "UMaterialInstanceDynamic \<Rightarrow> FVideoSink \<Rightarrow> FVideoSink" where
  "FVideoSink_UnbindMaterial Material Sink = Sink\<lparr>Materials := Materials Sink - {Material}\<rparr>"

text \<open>
  The participant and video-track events re-broadcast to the host application, in the
  order of the \<open>BroadcastEvent\<close> calls.  The other broadcasts of the subsystem
  (\<open>OnTokenNeeded\<close>, \<open>OnInitialized\<close>, the speaker and device events) are not recorded.
\<close>

datatype broadcast =
  OnParticipantAdded FDolbyIOParticipantInfo
| OnParticipantUpdated FDolbyIOParticipantInfo
| OnVideoTrackAdded FDolbyIOVideoTrack
| OnVideoTrackRemoved FDolbyIOVideoTrack
| OnVideoTrackEnabled FDolbyIOVideoTrack
| OnVideoTrackDisabled FDolbyIOVideoTrack

text \<open>
  The members of \<open>UDolbyIOSubsystem\<close> the handlers touch.  \<open>BufferedVideoTracks\<close> is
  the buffer of the handlers written inline in \<open>Initialize(const FString&)\<close>;
  \<open>BufferedAddedVideoTracks\<close> and \<open>BufferedEnabledVideoTracks\<close> are the buffers of the
  \<open>Handle\<close> overloads and of \<open>ProcessBufferedVideoTracks\<close>.
\<close>

record UDolbyIOSubsystem =
  RemoteParticipants :: "FString \<rightharpoonup> FDolbyIOParticipantInfo"
  VideoSinks :: "FString \<rightharpoonup> FVideoSink"
  BufferedVideoTracks :: "FString \<rightharpoonup> FDolbyIOVideoTrack list"
  BufferedAddedVideoTracks :: "FString \<rightharpoonup> FDolbyIOVideoTrack list"
  BufferedEnabledVideoTracks :: "FString \<rightharpoonup> FDolbyIOVideoTrack list"
  Broadcasts :: "broadcast list"

text \<open>
  A failed \<open>check\<close>: \<open>TMap::operator[]\<close> is \<open>FindChecked\<close>, which asserts that
  the key is present.
\<close>

datatype error = CheckFailed

text \<open>
  \<open>UDolbyIOSubsystem::Initialize(FSubsystemCollectionBase&)\<close>: the two local sinks are
  emplaced; the track identifiers are constants declared outside the sources and are
  taken as parameters.
\<close>

definition Initialize :: "FString \<Rightarrow> FString \<Rightarrow> UDolbyIOSubsystem" where
  "Initialize LocalCameraTrackID LocalScreenshareTrackID =
     \<lparr>RemoteParticipants = Map.empty,
      VideoSinks = (Map.empty(LocalCameraTrackID \<mapsto> make_FVideoSink))
                     (LocalScreenshareTrackID \<mapsto> make_FVideoSink),
      BufferedVideoTracks = Map.empty,
      BufferedAddedVideoTracks = Map.empty,
      BufferedEnabledVideoTracks = Map.empty,
      Broadcasts = []\<rparr>"

definition BroadcastEvent :: "broadcast \<Rightarrow> UDolbyIOSubsystem \<Rightarrow> UDolbyIOSubsystem" where
  "BroadcastEvent b s = s\<lparr>Broadcasts := Broadcasts s @ [b]\<rparr>"

subsection \<open>Materials and textures\<close>

text \<open>
  \<open>BindMaterial\<close>: the loop unbinds the material from every sink whose key differs from
  \<open>VideoTrackID\<close>, then the sink found under \<open>VideoTrackID\<close>, if any, binds it.
\<close>

definition UnbindFromOthers ::
  "UMaterialInstanceDynamic \<Rightarrow> FString \<Rightarrow> (FString \<rightharpoonup> FVideoSink) \<Rightarrow> (FString \<rightharpoonup> FVideoSink)" where
  "UnbindFromOthers Material VideoTrackID Sinks =
     (\<lambda>Key. case Sinks Key of
              None \<Rightarrow> None
            | Some Sink \<Rightarrow>
                if Key \<noteq> VideoTrackID then Some (FVideoSink_UnbindMaterial Material Sink)
                else Some Sink)"

definition BindMaterial ::
  "UMaterialInstanceDynamic \<Rightarrow> FString \<Rightarrow> UDolbyIOSubsystem \<Rightarrow> UDolbyIOSubsystem" where
  "BindMaterial Material VideoTrackID s =
     (let Sinks = UnbindFromOthers Material VideoTrackID (VideoSinks s) in
      case Sinks VideoTrackID of
        Some Sink \<Rightarrow> s\<lparr>VideoSinks := Sinks(VideoTrackID \<mapsto> FVideoSink_BindMaterial Material Sink)\<rparr>
      | None \<Rightarrow> s\<lparr>VideoSinks := Sinks\<rparr>)"

definition UnbindMaterial ::
  "UMaterialInstanceDynamic \<Rightarrow> FString \<Rightarrow> UDolbyIOSubsystem \<Rightarrow> UDolbyIOSubsystem" where
  "UnbindMaterial Material VideoTrackID s =
     (case VideoSinks s VideoTrackID of
        Some Sink \<Rightarrow> s\<lparr>VideoSinks := (VideoSinks s)(VideoTrackID \<mapsto> FVideoSink_UnbindMaterial Material Sink)\<rparr>
      | None \<Rightarrow> s)"

definition GetTexture :: "FString \<Rightarrow> UDolbyIOSubsystem \<Rightarrow> UTexture2D option" where
  "GetTexture VideoTrackID s =
     (case VideoSinks s VideoTrackID of
        Some Sink \<Rightarrow> Texture Sink
      | None \<Rightarrow> None)"

text \<open>Whether the sink stored under a key holds the material.\<close>

definition IsBound :: "UMaterialInstanceDynamic \<Rightarrow> UDolbyIOSubsystem \<Rightarrow> FString \<Rightarrow> bool" where
  "IsBound Material s Key =
     (case VideoSinks s Key of
        Some Sink \<Rightarrow> Material \<in> Materials Sink
      | None \<Rightarrow> False)"

subsection \<open>Broadcasting buffered tracks\<close>

definition BroadcastVideoTrackAdded :: "FDolbyIOVideoTrack \<Rightarrow> UDolbyIOSubsystem \<Rightarrow> UDolbyIOSubsystem" where
  "BroadcastVideoTrackAdded VideoTrack s = BroadcastEvent (OnVideoTrackAdded VideoTrack) s"

definition BroadcastVideoTrackEnabled :: "FDolbyIOVideoTrack \<Rightarrow> UDolbyIOSubsystem \<Rightarrow> UDolbyIOSubsystem" where
  "BroadcastVideoTrackEnabled VideoTrack s = BroadcastEvent (OnVideoTrackEnabled VideoTrack) s"

text \<open>
  The scan \<open>for (int i = 0; i < EnabledTracksRef.Num(); ++i)\<close> of the closure in
  \<open>ProcessBufferedVideoTracks\<close>: the first buffered track with the given identifier,
  and the array after \<open>RemoveAt(i)\<close>.
\<close>

fun FirstEnabled :: "FString \<Rightarrow> FDolbyIOVideoTrack list \<Rightarrow> (FDolbyIOVideoTrack \<times> FDolbyIOVideoTrack list) option" where
  "FirstEnabled Tid [] = None"
| "FirstEnabled Tid (e # es) =
     (if TrackID e = Tid then Some (e, es)
      else (case FirstEnabled Tid es of
              None \<Rightarrow> None
            | Some (x, rest) \<Rightarrow> Some (x, e # rest)))"

text \<open>
  The body of the closure of \<open>ProcessBufferedVideoTracks\<close>: the added track is
  broadcast, then the first buffered enabled track of the participant with the same
  identifier, which is removed from its array; an array left empty is removed from
  the map.
\<close>

definition BufferedLambdaBody :: "FString \<Rightarrow> FDolbyIOVideoTrack \<Rightarrow> UDolbyIOSubsystem \<Rightarrow> UDolbyIOSubsystem" where
  "BufferedLambdaBody Participant AddedTrack s =
     (let s1 = BroadcastVideoTrackAdded AddedTrack s in
      case BufferedEnabledVideoTracks s1 Participant of
        None \<Rightarrow> s1
      | Some EnabledTracks \<Rightarrow>
          (case FirstEnabled (TrackID AddedTrack) EnabledTracks of
             None \<Rightarrow> s1
           | Some (Enabled, Rest) \<Rightarrow>
               (let s2 = BroadcastVideoTrackEnabled Enabled s1 in
                if Rest = []
                then s2\<lparr>BufferedEnabledVideoTracks := (BufferedEnabledVideoTracks s2)(Participant := None)\<rparr>
                else s2\<lparr>BufferedEnabledVideoTracks := (BufferedEnabledVideoTracks s2)(Participant \<mapsto> Rest)\<rparr>)))"

fun Invoke :: "FOnTextureCreated \<Rightarrow> UDolbyIOSubsystem \<Rightarrow> UDolbyIOSubsystem" where
  "Invoke (AddedLambda VideoTrack) s = BroadcastVideoTrackAdded VideoTrack s"
| "Invoke (BufferedLambda Participant AddedTrack) s = BufferedLambdaBody Participant AddedTrack s"

text \<open>
  Modelled from the spec: \<open>VideoSinks[TrackID]->OnTextureCreated(F)\<close>.  The lookup
  \<open>VideoSinks[TrackID]\<close> is the source's and fails its check on a missing key;
  \<open>FVideoSink::OnTextureCreated\<close> is not among the sources and is the surface-ready
  gating of the spec: \<open>F\<close> runs at once when the surface exists, and waits in the sink
  for the surface otherwise.
\<close>

definition OnTextureCreated :: "FString \<Rightarrow> FOnTextureCreated \<Rightarrow> UDolbyIOSubsystem \<Rightarrow> error + UDolbyIOSubsystem" where
  "OnTextureCreated Tid F s =
     (case VideoSinks s Tid of
        None \<Rightarrow> Inl CheckFailed
      | Some Sink \<Rightarrow>
          (case Texture Sink of
             Some T \<Rightarrow> Inr (Invoke F s)
           | None \<Rightarrow> Inr (s\<lparr>VideoSinks := (VideoSinks s)(Tid \<mapsto> Sink\<lparr>OnTexCreated := OnTexCreated Sink @ [F]\<rparr>)\<rparr>)))"

text \<open>
  Modelled from the spec: the surface of the sink stored under an identifier is created
  (its first frame arrives).  The closures waiting in the sink run in the order they
  were handed over.  A sink that already has its surface, and an identifier with no sink,
  change nothing.
\<close>

definition TextureCreated :: "FString \<Rightarrow> UTexture2D \<Rightarrow> UDolbyIOSubsystem \<Rightarrow> UDolbyIOSubsystem" where
  "TextureCreated Tid T s =
     (case VideoSinks s Tid of
        None \<Rightarrow> s
      | Some Sink \<Rightarrow>
          (case Texture Sink of
             Some T' \<Rightarrow> s
           | None \<Rightarrow>
               fold Invoke (OnTexCreated Sink)
                 (s\<lparr>VideoSinks := (VideoSinks s)(Tid \<mapsto> Sink\<lparr>Texture := Some T, OnTexCreated := []\<rparr>)\<rparr>)))"

text \<open>\<open>TMap::FindOrAdd(Key).Add(Value)\<close> on a map of arrays.\<close>

definition FindOrAddAdd :: "FString \<Rightarrow> 'a \<Rightarrow> (FString \<rightharpoonup> 'a list) \<Rightarrow> (FString \<rightharpoonup> 'a list)" where
  "FindOrAddAdd Key Value M =
     M(Key \<mapsto> (case M Key of None \<Rightarrow> [] | Some Values \<Rightarrow> Values) @ [Value])"

text \<open>
  The loop of \<open>ProcessBufferedVideoTracks\<close> over the buffered tracks of the participant;
  a failed check ends the run.
\<close>

fun ProcessAddedTracks :: "FString \<Rightarrow> FDolbyIOVideoTrack list \<Rightarrow> UDolbyIOSubsystem \<Rightarrow> error + UDolbyIOSubsystem" where
  "ProcessAddedTracks Participant [] s = Inr s"
| "ProcessAddedTracks Participant (AddedTrack # AddedTracks) s =
     (case OnTextureCreated (TrackID AddedTrack) (BufferedLambda Participant AddedTrack) s of
        Inl e \<Rightarrow> Inl e
      | Inr s' \<Rightarrow> ProcessAddedTracks Participant AddedTracks s')"

definition ProcessBufferedVideoTracks :: "FString \<Rightarrow> UDolbyIOSubsystem \<Rightarrow> error + UDolbyIOSubsystem" where
  "ProcessBufferedVideoTracks Participant s =
     (case BufferedAddedVideoTracks s Participant of
        None \<Rightarrow> Inr s
      | Some AddedTracks \<Rightarrow>
          (case ProcessAddedTracks Participant AddedTracks s of
             Inl e \<Rightarrow> Inl e
           | Inr s' \<Rightarrow> Inr (s'\<lparr>BufferedAddedVideoTracks := (BufferedAddedVideoTracks s')(Participant := None)\<rparr>)))"

subsection \<open>The \<open>Handle\<close> overloads\<close>

text \<open>
  \<open>Handle(const remote_video_track_added&)\<close>: a new sink is emplaced under the track
  (replacing one already there) and given to the SDK; the broadcast waits for the
  surface when the participant is known, and the track is buffered otherwise.
\<close>

definition Handle_remote_video_track_added :: "FDolbyIOVideoTrack \<Rightarrow> UDolbyIOSubsystem \<Rightarrow> error + UDolbyIOSubsystem" where
  "Handle_remote_video_track_added VideoTrack s =
     (let s1 = s\<lparr>VideoSinks := (VideoSinks s)(TrackID VideoTrack \<mapsto> make_FVideoSink)\<rparr> in
      if RemoteParticipants s1 (ParticipantID VideoTrack) \<noteq> None
      then OnTextureCreated (TrackID VideoTrack) (AddedLambda VideoTrack) s1
      else Inr (s1\<lparr>BufferedAddedVideoTracks :=
                    FindOrAddAdd (ParticipantID VideoTrack) VideoTrack (BufferedAddedVideoTracks s1)\<rparr>))"

text \<open>
  \<open>Handle(const remote_video_track_removed&)\<close>: \<open>VideoSinks[TrackID]\<close> is looked up
  with \<open>operator[]\<close> before anything else; the sink unbinds its materials and is removed,
  then the removal is broadcast.  Neither buffer is touched.
\<close>

definition Handle_remote_video_track_removed :: "FDolbyIOVideoTrack \<Rightarrow> UDolbyIOSubsystem \<Rightarrow> error + UDolbyIOSubsystem" where
  "Handle_remote_video_track_removed VideoTrack s =
     (case VideoSinks s (TrackID VideoTrack) of
        None \<Rightarrow> Inl CheckFailed
      | Some Sink \<Rightarrow>
          Inr (BroadcastEvent (OnVideoTrackRemoved VideoTrack)
                 (s\<lparr>VideoSinks := (VideoSinks s)(TrackID VideoTrack := None)\<rparr>)))"

text \<open>One turn of the loop over \<open>Event.new_enabled\<close> in \<open>Handle(const utils::vfs_event&)\<close>.\<close>

definition HandleEnabled :: "FDolbyIOVideoTrack \<Rightarrow> UDolbyIOSubsystem \<Rightarrow> UDolbyIOSubsystem" where
  "HandleEnabled VideoTrack s =
     (if GetTexture (TrackID VideoTrack) s \<noteq> None
      then BroadcastVideoTrackEnabled VideoTrack s
      else s\<lparr>BufferedEnabledVideoTracks :=
                FindOrAddAdd (ParticipantID VideoTrack) VideoTrack (BufferedEnabledVideoTracks s)\<rparr>)"

definition HandleDisabled :: "FDolbyIOVideoTrack \<Rightarrow> UDolbyIOSubsystem \<Rightarrow> UDolbyIOSubsystem" where
  "HandleDisabled VideoTrack s = BroadcastEvent (OnVideoTrackDisabled VideoTrack) s"

definition Handle_vfs_event :: "FDolbyIOVideoTrack list \<Rightarrow> FDolbyIOVideoTrack list \<Rightarrow> UDolbyIOSubsystem \<Rightarrow> UDolbyIOSubsystem" where
  "Handle_vfs_event new_enabled new_disabled s =
     fold HandleDisabled new_disabled (fold HandleEnabled new_enabled s)"

text \<open>
  Modelled from the spec: \<open>OnParticipantKnown\<close>.  The caller of
  \<open>ProcessBufferedVideoTracks\<close> is not among the sources; by the spec the participant
  record becomes available and the tracks buffered for the participant are drained.
\<close>

definition OnParticipantKnown :: "FDolbyIOParticipantInfo \<Rightarrow> UDolbyIOSubsystem \<Rightarrow> error + UDolbyIOSubsystem" where
  "OnParticipantKnown Info s =
     ProcessBufferedVideoTracks (UserID Info)
       (s\<lparr>RemoteParticipants := (RemoteParticipants s)(UserID Info \<mapsto> Info)\<rparr>)"

subsection \<open>The handlers written inline in \<open>Initialize(const FString&)\<close>\<close>







subsection \<open>Runs of the subsystem\<close>

text \<open>
  What reaches the subsystem between two broadcasts: the SDK's track events, a
  participant becoming known, the creation of a sink's surface, and the two material
  calls of the host application.
\<close>

datatype event =
  RemoteVideoTrackAdded FDolbyIOVideoTrack
| RemoteVideoTrackRemoved FDolbyIOVideoTrack
| VfsEvent "FDolbyIOVideoTrack list" "FDolbyIOVideoTrack list"
| ParticipantKnown FDolbyIOParticipantInfo
| SurfaceCreated FString UTexture2D
| CallBindMaterial UMaterialInstanceDynamic FString
| CallUnbindMaterial UMaterialInstanceDynamic FString

fun step :: "event \<Rightarrow> UDolbyIOSubsystem \<Rightarrow> error + UDolbyIOSubsystem" where
  "step (RemoteVideoTrackAdded VideoTrack) s = Handle_remote_video_track_added VideoTrack s"
| "step (RemoteVideoTrackRemoved VideoTrack) s = Handle_remote_video_track_removed VideoTrack s"
| "step (VfsEvent new_enabled new_disabled) s = Inr (Handle_vfs_event new_enabled new_disabled s)"
| "step (ParticipantKnown Info) s = OnParticipantKnown Info s"
| "step (SurfaceCreated Tid T) s = Inr (TextureCreated Tid T s)"
| "step (CallBindMaterial Material VideoTrackID) s = Inr (BindMaterial Material VideoTrackID s)"
| "step (CallUnbindMaterial Material VideoTrackID) s = Inr (UnbindMaterial Material VideoTrackID s)"

fun run :: "event list \<Rightarrow> UDolbyIOSubsystem \<Rightarrow> error + UDolbyIOSubsystem" where
  "run [] s = Inr s"
| "run (e # es) s = (case step e s of Inl err \<Rightarrow> Inl err | Inr s' \<Rightarrow> run es s')"






text \<open>
  A list of broadcasts in which every enabled notification either stands directly after
  the added notification of the same track identifier, or is for a track whose surface
  existed (\<open>Ready\<close>) when the list was started.
\<close>

fun EnabledAfterAdded :: "(FString \<Rightarrow> bool) \<Rightarrow> broadcast list \<Rightarrow> bool" where
  "EnabledAfterAdded Ready [] = True"
| "EnabledAfterAdded Ready (OnVideoTrackAdded a # OnVideoTrackEnabled e # bs) =
     ((TrackID e = TrackID a \<or> Ready (TrackID e)) \<and> EnabledAfterAdded Ready bs)"
| "EnabledAfterAdded Ready (OnVideoTrackEnabled e # bs) =
     (Ready (TrackID e) \<and> EnabledAfterAdded Ready bs)"
| "EnabledAfterAdded Ready (b # bs) = EnabledAfterAdded Ready bs"

text \<open>The track a closure was built for.\<close>

fun LambdaTrack :: "FOnTextureCreated \<Rightarrow> FDolbyIOVideoTrack" where
  "LambdaTrack (AddedLambda VideoTrack) = VideoTrack"
| "LambdaTrack (BufferedLambda Participant AddedTrack) = AddedTrack"

text \<open>Every closure waiting in a sink was built for the track the sink is stored under.\<close>

definition LambdasFit :: "UDolbyIOSubsystem \<Rightarrow> bool" where
  "LambdasFit s =
     (\<forall>Key Sink. VideoSinks s Key = Some Sink \<longrightarrow>
        (\<forall>F \<in> set (OnTexCreated Sink). TrackID (LambdaTrack F) = Key))"

text \<open>No material is bound to the sinks of two tracks.\<close>

definition OneSinkPerMaterial :: "UDolbyIOSubsystem \<Rightarrow> bool" where
  "OneSinkPerMaterial s =
     (\<forall>Material Key Key'. IsBound Material s Key \<longrightarrow> IsBound Material s Key' \<longrightarrow> Key = Key')"

section \<open>The connection state of \<open>FSdkAccess\<close>\<close>

text \<open>
  Modelled from the spec: \<open>FSdkStatus\<close> is not among the sources.  It is the thin
  connection-state machine of the spec, disconnected, connecting, connected,
  disconnecting; \<open>OnConnecting\<close>, \<open>OnConnected\<close>, \<open>OnDisconnecting\<close> and
  \<open>OnDisconnected\<close> store the state of their name, \<open>IsConnected\<close> and
  \<open>IsDisconnected\<close> test it.  Its other members (\<open>SetObserver\<close>,
  \<open>OnRefreshTokenRequested\<close>) and the error macros \<open>DLB_CATCH_ALL\<close> and
  \<open>DLB_HANDLE_ASYNC_EXCEPTION\<close>, none of them among the sources, report to the observer
  and leave the state alone.
\<close>

datatype FSdkStatus = Disconnected | Connecting | Connected | Disconnecting

definition IsConnected :: "FSdkStatus \<Rightarrow> bool" where
  "IsConnected st = (st = Connected)"

definition IsDisconnected :: "FSdkStatus \<Rightarrow> bool" where
  "IsDisconnected st = (st = Disconnected)"

text \<open>The asynchronous SDK calls the operations start.\<close>

datatype sdk_call =
  session_open FString
| conference_leave
| conference_mute bool
| conference_mute_output bool
| update_spatial_audio_configuration
| refresh_token

text \<open>
  The \<open>then\<close> continuations that touch the status: the last one of the chains started by
  \<open>Connect\<close> and \<open>ConnectToDemoConference\<close>, and the last one of the chain started by
  \<open>Disconnect\<close>.
\<close>

datatype continuation = ThenOnConnected | ThenOnDisconnected

datatype exception = logic_error string

text \<open>
  \<open>FSdkAccess\<close>: whether \<open>Sdk\<close> is set, the status, the SDK calls made so far, the
  continuations of the chains that have not completed yet, and whether
  \<open>RefreshTokenCb\<close> is set.
\<close>

record FSdkAccess =
  Sdk :: bool
  Status :: FSdkStatus
  SdkCalls :: "sdk_call list"
  Pending :: "continuation list"
  RefreshTokenCb :: bool

text \<open>
  \<open>FSdkAccess::Initialize\<close>.  The status is set to disconnected first, whatever it was;
  the SDK and the refresh callback are reset, and the SDK is set again when
  \<open>sdk::create\<close> returns (\<open>created\<close>) and stays unset when it throws.  Nothing in the
  function touches the chains started earlier.
\<close>

definition FSdkAccess_Initialize :: "bool \<Rightarrow> FSdkAccess \<Rightarrow> FSdkAccess" where
  "FSdkAccess_Initialize created a =
     a\<lparr>Status := Disconnected, Sdk := created, RefreshTokenCb := False\<rparr>"

text \<open>
  \<open>FSdkAccess::RefreshToken\<close>: the refresh callback is called when it is set, and the
  SDK is initialized again otherwise.
\<close>

definition RefreshToken :: "bool \<Rightarrow> FSdkAccess \<Rightarrow> FSdkAccess" where
  "RefreshToken created a =
     (if RefreshTokenCb a then a\<lparr>SdkCalls := SdkCalls a @ [refresh_token]\<rparr>
      else FSdkAccess_Initialize created a)"

definition ConnectToDemoConference :: "FString \<Rightarrow> FSdkAccess \<Rightarrow> FSdkAccess" where
  "ConnectToDemoConference User a =
     a\<lparr>SdkCalls := SdkCalls a @ [session_open User], Pending := Pending a @ [ThenOnConnected]\<rparr>"

text \<open>
  \<open>FSdkAccess::Connect\<close>.  The three \<open>throw\<close> statements leave through the function's
  \<open>catch\<close> block before the status is touched.
\<close>

definition Connect :: "FString \<Rightarrow> FString \<Rightarrow> FSdkAccess \<Rightarrow> exception + FSdkAccess" where
  "Connect Conf User a =
     (if \<not> Sdk a then Inl (logic_error ''Must initialize SDK first'')
      else if Conf = [] \<or> User = [] then Inl (logic_error ''Conference name and user name cannot be empty'')
      else if \<not> IsDisconnected (Status a) then Inl (logic_error ''Must disconnect first'')
      else (let a1 = a\<lparr>Status := Connecting\<rparr> in
            if Conf = ''demo'' then Inr (ConnectToDemoConference User a1)
            else Inr (a1\<lparr>SdkCalls := SdkCalls a1 @ [session_open User],
                         Pending := Pending a1 @ [ThenOnConnected]\<rparr>)))"

definition Disconnect :: "FSdkAccess \<Rightarrow> FSdkAccess" where
  "Disconnect a =
     (if \<not> IsConnected (Status a) then a
      else a\<lparr>Status := Disconnecting, SdkCalls := SdkCalls a @ [conference_leave],
              Pending := Pending a @ [ThenOnDisconnected]\<rparr>)"

definition MuteInput :: "bool \<Rightarrow> FSdkAccess \<Rightarrow> FSdkAccess" where
  "MuteInput bIsMuted a =
     (if \<not> IsConnected (Status a) then a
      else a\<lparr>SdkCalls := SdkCalls a @ [conference_mute bIsMuted]\<rparr>)"

definition MuteOutput :: "bool \<Rightarrow> FSdkAccess \<Rightarrow> FSdkAccess" where
  "MuteOutput bIsMuted a =
     (if \<not> IsConnected (Status a) then a
      else a\<lparr>SdkCalls := SdkCalls a @ [conference_mute_output bIsMuted]\<rparr>)"

text \<open>\<open>FSdkAccess::UpdateViewPoint\<close>; the position and rotation only shape the call's argument.\<close>

definition UpdateViewPoint :: "FSdkAccess \<Rightarrow> FSdkAccess" where
  "UpdateViewPoint a =
     (if \<not> IsConnected (Status a) then a
      else a\<lparr>SdkCalls := SdkCalls a @ [update_spatial_audio_configuration]\<rparr>)"

fun RunContinuation :: "continuation \<Rightarrow> FSdkAccess \<Rightarrow> FSdkAccess" where
  "RunContinuation ThenOnConnected a = a\<lparr>Status := Connected\<rparr>"
| "RunContinuation ThenOnDisconnected a = a\<lparr>Status := Disconnected\<rparr>"

text \<open>
  The calls of the owning actor and what the SDK does in between: it asks for a new
  token (the closure given to \<open>sdk::create\<close> sets \<open>RefreshTokenCb\<close>), the oldest chain
  still pending completes (its last continuation runs), or that chain fails (its
  continuations are skipped).
\<close>

datatype call =
  CallInitialize bool
| CallRefreshToken bool
| CallConnect FString FString
| CallDisconnect
| CallMuteInput bool
| CallMuteOutput bool
| CallUpdateViewPoint
| RefreshTokenRequested
| ChainCompleted
| ChainFailed

fun SdkStep :: "call \<Rightarrow> FSdkAccess \<Rightarrow> FSdkAccess" where
  "SdkStep (CallInitialize created) a = FSdkAccess_Initialize created a"
| "SdkStep (CallRefreshToken created) a = RefreshToken created a"
| "SdkStep (CallConnect Conf User) a = (case Connect Conf User a of Inl ex \<Rightarrow> a | Inr a' \<Rightarrow> a')"
| "SdkStep CallDisconnect a = Disconnect a"
| "SdkStep (CallMuteInput bIsMuted) a = MuteInput bIsMuted a"
| "SdkStep (CallMuteOutput bIsMuted) a = MuteOutput bIsMuted a"
| "SdkStep CallUpdateViewPoint a = UpdateViewPoint a"
| "SdkStep RefreshTokenRequested a = a\<lparr>RefreshTokenCb := True\<rparr>"
| "SdkStep ChainCompleted a =
     (case Pending a of
        [] \<Rightarrow> a
      | k # ks \<Rightarrow> RunContinuation k (a\<lparr>Pending := ks\<rparr>))"
| "SdkStep ChainFailed a =
     (case Pending a of
        [] \<Rightarrow> a
      | k # ks \<Rightarrow> a\<lparr>Pending := ks\<rparr>)"

text \<open>The statuses seen along a run of calls, the first one included.\<close>

fun Statuses :: "call list \<Rightarrow> FSdkAccess \<Rightarrow> FSdkStatus list" where
  "Statuses [] a = [Status a]"
| "Statuses (c # cs) a = Status a # Statuses cs (SdkStep c a)"

fun NextStatus :: "FSdkStatus \<Rightarrow> FSdkStatus" where
  "NextStatus Disconnected = Connecting"
| "NextStatus Connecting = Connected"
| "NextStatus Connected = Disconnecting"
| "NextStatus Disconnecting = Disconnected"

text \<open>A list of statuses in which each one is its predecessor or the predecessor's successor.\<close>

fun AlongCycle :: "FSdkStatus list \<Rightarrow> bool" where
  "AlongCycle (st # st' # sts) = ((st' = st \<or> st' = NextStatus st) \<and> AlongCycle (st' # sts))"
| "AlongCycle sts = True"

text \<open>Whether a call runs \<open>FSdkAccess::Initialize\<close> in a state.\<close>

fun Resets :: "call \<Rightarrow> FSdkAccess \<Rightarrow> bool" where
  "Resets (CallInitialize created) a = True"
| "Resets (CallRefreshToken created) a = (\<not> RefreshTokenCb a)"
| "Resets c a = False"

text \<open>Whether a call is one of the two that can run \<open>FSdkAccess::Initialize\<close>.\<close>

fun MayReset :: "call \<Rightarrow> bool" where
  "MayReset (CallInitialize created) = True"
| "MayReset (CallRefreshToken created) = True"
| "MayReset c = False"

text \<open>
  A run in which every step keeps the status, moves it to its successor on the cycle, or
  runs \<open>FSdkAccess::Initialize\<close> and ends disconnected.
\<close>

fun CycleOrReset :: "call list \<Rightarrow> FSdkAccess \<Rightarrow> bool" where
  "CycleOrReset [] a = True"
| "CycleOrReset (c # cs) a =
     ((Status (SdkStep c a) = Status a \<or> Status (SdkStep c a) = NextStatus (Status a)
        \<or> Resets c a \<and> Status (SdkStep c a) = Disconnected)
      \<and> CycleOrReset cs (SdkStep c a))"

text \<open>A run in which \<open>FSdkAccess::Initialize\<close> is never run while a chain is pending.\<close>

fun Unhurried :: "call list \<Rightarrow> FSdkAccess \<Rightarrow> bool" where
  "Unhurried [] a = True"
| "Unhurried (c # cs) a =
     ((if Resets c a then Pending a = [] else True) \<and> Unhurried cs (SdkStep c a))"

text \<open>
  The state \<open>FSdkAccess::Initialize\<close> leaves when \<open>sdk::create\<close> succeeds and no chain
  is pending: the SDK is set and the status is disconnected.
\<close>

definition Initialized :: FSdkAccess where
  "Initialized =
     \<lparr>Sdk = True, Status = Disconnected, SdkCalls = [], Pending = [], RefreshTokenCb = False\<rparr>"

text \<open>
  The pending continuations are those of the chain the status is waiting for, if that
  chain has not failed, and the SDK is set unless the status is disconnected.
\<close>

definition Coherent :: "FSdkAccess \<Rightarrow> bool" where
  "Coherent a =
     ((case Status a of
         Connecting \<Rightarrow> Pending a = [] \<or> Pending a = [ThenOnConnected]
       | Disconnecting \<Rightarrow> Pending a = [] \<or> Pending a = [ThenOnDisconnected]
       | Disconnected \<Rightarrow> Pending a = []
       | Connected \<Rightarrow> Pending a = [])
      \<and> (Status a = Disconnected \<or> Sdk a))"

section \<open>Notions used in the statements\<close>

text \<open>
  The broadcasts of closures run for a list of tracks, in order: for each track its
  added notification, directly followed by at most one enabled notification with the
  same track identifier.
\<close>

fun Pairs :: "FDolbyIOVideoTrack list \<Rightarrow> broadcast list \<Rightarrow> bool" where
  "Pairs [] bs = (bs = [])"
| "Pairs (t # ts) (OnVideoTrackAdded a # OnVideoTrackEnabled e # bs) =
     (a = t \<and> TrackID e = TrackID t \<and> Pairs ts bs)"
| "Pairs (t # ts) (OnVideoTrackAdded a # bs) = (a = t \<and> Pairs ts bs)"
| "Pairs (t # ts) bs = False"

text \<open>Two states whose sinks have the same keys, the same textures and the same materials.\<close>

definition SameSurfaces :: "UDolbyIOSubsystem \<Rightarrow> UDolbyIOSubsystem \<Rightarrow> bool" where
  "SameSurfaces s s' =
     (\<forall>Key. map_option (\<lambda>Sink. (Texture Sink, Materials Sink)) (VideoSinks s' Key) =
            map_option (\<lambda>Sink. (Texture Sink, Materials Sink)) (VideoSinks s Key))"

text \<open>Sample data for the closed instances below.\<close>

abbreviation Fresh :: UDolbyIOSubsystem where
  "Fresh \<equiv> Initialize ''local-camera'' ''local-screenshare''"






abbreviation Bound :: UDolbyIOSubsystem where
  "Bound \<equiv> BindMaterial 7 ''local-camera'' Fresh"

section \<open>Properties of the connection state\<close>

lemma SdkStep_Coherent:
  assumes "Coherent a" and "Resets c a \<Longrightarrow> Pending a = []"
  shows "Coherent (SdkStep c a) \<and>
         (Status (SdkStep c a) = Status a \<or> Status (SdkStep c a) = NextStatus (Status a)
          \<or> Resets c a \<and> Status (SdkStep c a) = Disconnected)"
proof (cases c)
  case (CallInitialize created)
  with assms show ?thesis by (auto simp: Coherent_def FSdkAccess_Initialize_def)
next
  case (CallRefreshToken created)
  with assms show ?thesis
    by (cases "Status a") (auto simp: Coherent_def RefreshToken_def FSdkAccess_Initialize_def)
next
  case (CallConnect Conf User)
  with assms show ?thesis
    by (cases "Status a")
       (auto simp: Coherent_def Connect_def ConnectToDemoConference_def IsDisconnected_def Let_def)
next
  case CallDisconnect
  with assms show ?thesis
    by (cases "Status a") (auto simp: Coherent_def Disconnect_def IsConnected_def)
next
  case (CallMuteInput b)
  with assms show ?thesis
    by (cases "Status a") (auto simp: Coherent_def MuteInput_def IsConnected_def)
next
  case (CallMuteOutput b)
  with assms show ?thesis
    by (cases "Status a") (auto simp: Coherent_def MuteOutput_def IsConnected_def)
next
  case CallUpdateViewPoint
  with assms show ?thesis
    by (cases "Status a") (auto simp: Coherent_def UpdateViewPoint_def IsConnected_def)
next
  case RefreshTokenRequested
  with assms show ?thesis by (cases "Status a") (auto simp: Coherent_def)
next
  case ChainCompleted
  with assms show ?thesis
    by (cases "Status a") (auto simp: Coherent_def)
next
  case ChainFailed
  with assms show ?thesis
    by (cases "Status a") (auto simp: Coherent_def)
qed

lemma Resets_MayReset: "Resets c a \<Longrightarrow> MayReset c"
  by (cases c) auto

lemma run_CycleOrReset: "Coherent a \<Longrightarrow> Unhurried cs a \<Longrightarrow> CycleOrReset cs a"
proof (induction cs arbitrary: a)
  case Nil
  then show ?case by simp
next
  case (Cons c cs)
  from Cons.prems(2) have p: "Resets c a \<Longrightarrow> Pending a = []" and u: "Unhurried cs (SdkStep c a)"
    by (auto split: if_splits)
  from SdkStep_Coherent[OF Cons.prems(1) p] Cons.IH[OF _ u] show ?case by simp
qed

lemma Statuses_hd: "\<exists>sts. Statuses cs a = Status a # sts"
  by (cases cs) auto

lemma Statuses_AlongCycle:
  "Coherent a \<Longrightarrow> \<forall>c \<in> set cs. \<not> MayReset c \<Longrightarrow> AlongCycle (Statuses cs a)"
proof (induction cs arbitrary: a)
  case Nil
  then show ?case by simp
next
  case (Cons c cs)
  have n: "\<not> Resets c a" using Cons.prems(2) Resets_MayReset by auto
  with SdkStep_Coherent[OF Cons.prems(1), of c]
  have st: "Coherent (SdkStep c a)"
    and mv: "Status (SdkStep c a) = Status a \<or> Status (SdkStep c a) = NextStatus (Status a)"
    by auto
  obtain sts where sts: "Statuses cs (SdkStep c a) = Status (SdkStep c a) # sts"
    using Statuses_hd by blast
  have "AlongCycle (Statuses cs (SdkStep c a))" using Cons.IH[OF st] Cons.prems(2) by simp
  with sts mv show ?case by auto
qed

lemma Initialize_sets_Disconnected:
  "Status (FSdkAccess_Initialize created a) = Disconnected
   \<and> (\<not> RefreshTokenCb a \<longrightarrow> Status (RefreshToken created a) = Disconnected)
   \<and> (RefreshTokenCb a \<longrightarrow> Status (RefreshToken created a) = Status a)"
  by (simp add: FSdkAccess_Initialize_def RefreshToken_def)

text \<open>
  A chain that \<open>FSdkAccess::Initialize\<close> has overtaken can still complete, and its
  continuation then sets the status from disconnected to connected; the runs of the
  statements below therefore initialize only while no chain is pending.
\<close>

lemma overtaken_chain_completes:
  "Statuses [CallConnect ''unreal'' ''unreal'', CallInitialize True, ChainCompleted] Initialized
     = [Disconnected, Connecting, Disconnected, Connected]"
  by (simp add: Initialized_def Connect_def FSdkAccess_Initialize_def IsDisconnected_def Let_def)

text \<open>
  C8, as stated, fails: \<open>FSdkAccess::Initialize\<close>, which \<open>RefreshToken\<close> runs when it
  holds no refresh callback, sets the status to disconnected whatever it was, here from
  connected, which is not a move on the cycle.
\<close>

theorem initialize_leaves_the_cycle:
  "Statuses [CallConnect ''unreal'' ''unreal'', ChainCompleted, CallRefreshToken True] Initialized
     = [Disconnected, Connecting, Connected, Disconnected]
   \<and> \<not> AlongCycle (Statuses [CallConnect ''unreal'' ''unreal'', ChainCompleted, CallRefreshToken True]
          Initialized)
   \<and> Status (FSdkAccess_Initialize True
        (SdkStep ChainCompleted (SdkStep (CallConnect ''unreal'' ''unreal'') Initialized))) = Disconnected
   \<and> Status (SdkStep ChainCompleted (SdkStep (CallConnect ''unreal'' ''unreal'') Initialized)) = Connected"
  by (simp add: Initialized_def Connect_def RefreshToken_def FSdkAccess_Initialize_def
      IsDisconnected_def Let_def)

text \<open>
  C8, amended.  \<open>Connect\<close> goes on, and then enters connecting, exactly when the SDK is
  set, both names are non-empty and the status is disconnected.  \<open>Disconnect\<close>,
  \<open>MuteInput\<close>, \<open>MuteOutput\<close> and \<open>UpdateViewPoint\<close> return the state they were
  given (no SDK call, same status) unless the status is connected; when it is,
  \<open>Disconnect\<close> enters disconnecting and the other three keep the status.
  \<open>FSdkAccess::Initialize\<close> sets the status to disconnected from every state, and so
  does \<open>RefreshToken\<close> when no refresh callback is set; with one set it keeps the
  status.  Along every run of all these calls, of token requests and of completions and
  failures of chains, from a state whose pending continuations are those of its status
  and in which \<open>Initialize\<close> is not run while a chain is pending, each step keeps the
  status, moves it to its successor on the cycle disconnected, connecting, connected,
  disconnecting, disconnected, or is a run of \<open>Initialize\<close> that ends disconnected; a
  run without \<open>Initialize\<close> and \<open>RefreshToken\<close> only moves along the cycle.
\<close>

theorem connection_state_machine:
  "((\<exists>a'. Connect Conf User a = Inr a') \<longleftrightarrow>
      (Sdk a \<and> Conf \<noteq> [] \<and> User \<noteq> [] \<and> Status a = Disconnected))
   \<and> (\<forall>a'. Connect Conf User a = Inr a' \<longrightarrow> Status a' = Connecting)
   \<and> (Status a \<noteq> Connected \<longrightarrow>
        Disconnect a = a \<and> MuteInput bIsMuted a = a \<and> MuteOutput bIsMuted a = a \<and> UpdateViewPoint a = a)
   \<and> (Status a = Connected \<longrightarrow>
        Status (Disconnect a) = Disconnecting \<and> Status (MuteInput bIsMuted a) = Connected
        \<and> Status (MuteOutput bIsMuted a) = Connected \<and> Status (UpdateViewPoint a) = Connected)
   \<and> Status (FSdkAccess_Initialize created a) = Disconnected
   \<and> (\<not> RefreshTokenCb a \<longrightarrow> Status (RefreshToken created a) = Disconnected)
   \<and> (RefreshTokenCb a \<longrightarrow> Status (RefreshToken created a) = Status a)
   \<and> (Coherent a \<longrightarrow> (if Resets c a then Pending a = [] else True) \<longrightarrow> Coherent (SdkStep c a))
   \<and> (Coherent a \<longrightarrow> Unhurried cs a \<longrightarrow> CycleOrReset cs a)
   \<and> (Coherent a \<longrightarrow> (\<forall>c \<in> set cs. \<not> MayReset c) \<longrightarrow> AlongCycle (Statuses cs a))"
proof -
  have 1: "(\<exists>a'. Connect Conf User a = Inr a') \<longleftrightarrow>
      (Sdk a \<and> Conf \<noteq> [] \<and> User \<noteq> [] \<and> Status a = Disconnected)"
    by (simp add: Connect_def IsDisconnected_def Let_def)
  have 2: "\<forall>a'. Connect Conf User a = Inr a' \<longrightarrow> Status a' = Connecting"
    by (auto simp: Connect_def ConnectToDemoConference_def Let_def split: if_splits)
  have 3: "Status a \<noteq> Connected \<longrightarrow>
        Disconnect a = a \<and> MuteInput bIsMuted a = a \<and> MuteOutput bIsMuted a = a \<and> UpdateViewPoint a = a"
    by (simp add: Disconnect_def MuteInput_def MuteOutput_def UpdateViewPoint_def IsConnected_def)
  have 4: "Status a = Connected \<longrightarrow>
        Status (Disconnect a) = Disconnecting \<and> Status (MuteInput bIsMuted a) = Connected
        \<and> Status (MuteOutput bIsMuted a) = Connected \<and> Status (UpdateViewPoint a) = Connected"
    by (simp add: Disconnect_def MuteInput_def MuteOutput_def UpdateViewPoint_def IsConnected_def)
  have 5: "Coherent a \<longrightarrow> (if Resets c a then Pending a = [] else True) \<longrightarrow> Coherent (SdkStep c a)"
    using SdkStep_Coherent[of a c] by (auto split: if_splits)
  have 6: "Coherent a \<longrightarrow> Unhurried cs a \<longrightarrow> CycleOrReset cs a"
    using run_CycleOrReset by blast
  have 7: "Coherent a \<longrightarrow> (\<forall>c \<in> set cs. \<not> MayReset c) \<longrightarrow> AlongCycle (Statuses cs a)"
    using Statuses_AlongCycle by blast
  from 1 2 3 4 5 6 7 Initialize_sets_Disconnected[of created a] show ?thesis by blast
qed

theorem connection_state_machine_witness:
  "Coherent Initialized
   \<and> (\<exists>a'. Connect ''unreal'' ''unreal'' Initialized = Inr a')
   \<and> Disconnect Initialized = Initialized
   \<and> Statuses [CallConnect ''unreal'' ''unreal'', CallMuteInput True, ChainCompleted, CallMuteInput True,
        CallDisconnect, CallConnect ''unreal'' ''unreal'', ChainFailed, ChainCompleted] Initialized
      = [Disconnected, Connecting, Connecting, Connected, Connected, Disconnecting, Disconnecting,
         Disconnecting, Disconnecting]
   \<and> AlongCycle (Statuses [CallConnect ''unreal'' ''unreal'', CallMuteInput True, ChainCompleted, CallMuteInput True,
        CallDisconnect, CallConnect ''unreal'' ''unreal'', ChainFailed, ChainCompleted] Initialized)
   \<and> Unhurried [CallConnect ''unreal'' ''unreal'', ChainCompleted, CallRefreshToken True,
        RefreshTokenRequested, CallRefreshToken True, CallConnect ''demo'' ''unreal''] Initialized
   \<and> Statuses [CallConnect ''unreal'' ''unreal'', ChainCompleted, CallRefreshToken True,
        RefreshTokenRequested, CallRefreshToken True, CallConnect ''demo'' ''unreal''] Initialized
      = [Disconnected, Connecting, Connected, Disconnected, Disconnected, Disconnected, Connecting]
   \<and> CycleOrReset [CallConnect ''unreal'' ''unreal'', ChainCompleted, CallRefreshToken True,
        RefreshTokenRequested, CallRefreshToken True, CallConnect ''demo'' ''unreal''] Initialized"
proof -
  let ?cs = "[CallConnect ''unreal'' ''unreal'', CallMuteInput True, ChainCompleted, CallMuteInput True,
        CallDisconnect, CallConnect ''unreal'' ''unreal'', ChainFailed, ChainCompleted]"
  let ?ds = "[CallConnect ''unreal'' ''unreal'', ChainCompleted, CallRefreshToken True,
        RefreshTokenRequested, CallRefreshToken True, CallConnect ''demo'' ''unreal'']"
  have c: "Coherent Initialized" by (simp add: Coherent_def Initialized_def)
  have s: "Sdk Initialized \<and> ''unreal'' \<noteq> [] \<and> Status Initialized = Disconnected"
    by (simp add: Initialized_def)
  note t = connection_state_machine [of "''unreal''" "''unreal''" Initialized True True "CallDisconnect" ?cs]
  note u = connection_state_machine [of "''unreal''" "''unreal''" Initialized True True "CallDisconnect" ?ds]
  have e: "Statuses ?cs Initialized
      = [Disconnected, Connecting, Connecting, Connected, Connected, Disconnecting, Disconnecting,
         Disconnecting, Disconnecting]"
    by (simp add: Initialized_def Connect_def Disconnect_def MuteInput_def IsConnected_def
        IsDisconnected_def Let_def)
  have f: "Statuses ?ds Initialized
      = [Disconnected, Connecting, Connected, Disconnected, Disconnected, Disconnected, Connecting]"
    by (simp add: Initialized_def Connect_def ConnectToDemoConference_def RefreshToken_def
        FSdkAccess_Initialize_def IsDisconnected_def Let_def)
  have h: "Unhurried ?ds Initialized"
    by (simp add: Initialized_def Connect_def ConnectToDemoConference_def RefreshToken_def
        FSdkAccess_Initialize_def IsDisconnected_def Let_def)
  have n: "\<forall>c \<in> set ?cs. \<not> MayReset c" by simp
  have d: "Disconnect Initialized = Initialized" using t s by simp
  from t c n have 1: "AlongCycle (Statuses ?cs Initialized)" by blast
  from u c h have 2: "CycleOrReset ?ds Initialized" by blast
  from t s have 3: "\<exists>a'. Connect ''unreal'' ''unreal'' Initialized = Inr a'" by blast
  from c 3 d e 1 h f 2 show ?thesis by blast
qed

section \<open>Properties of the subsystem\<close>

subsection \<open>Lists of broadcasts\<close>

lemma Pairs_hd: "Pairs ts bs \<Longrightarrow> bs = [] \<or> (\<exists>a bs'. bs = OnVideoTrackAdded a # bs')"
  by (induction ts bs rule: Pairs.induct) auto

lemma Pairs_ConsI1: "Pairs ts bs \<Longrightarrow> Pairs (t # ts) (OnVideoTrackAdded t # bs)"
  using Pairs_hd[of ts bs] by auto

lemma Pairs_ConsI2:
  "TrackID e = TrackID t \<Longrightarrow> Pairs ts bs \<Longrightarrow> Pairs (t # ts) (OnVideoTrackAdded t # OnVideoTrackEnabled e # bs)"
  by simp

lemma Pairs_Cons_cases:
  assumes "Pairs (t # ts) bs"
  shows "(\<exists>bs'. bs = OnVideoTrackAdded t # bs' \<and> Pairs ts bs') \<or>
         (\<exists>e bs'. bs = OnVideoTrackAdded t # OnVideoTrackEnabled e # bs' \<and> TrackID e = TrackID t \<and> Pairs ts bs')"
  using assms by (induction "t # ts" bs rule: Pairs.induct) auto

lemma Pairs_append: "Pairs ts bs \<Longrightarrow> Pairs us cs \<Longrightarrow> Pairs (ts @ us) (bs @ cs)"
proof (induction ts arbitrary: bs)
  case Nil
  then show ?case by simp
next
  case (Cons t ts)
  from Pairs_Cons_cases[OF Cons.prems(1)] show ?case
  proof (elim disjE exE conjE)
    fix bs' assume "bs = OnVideoTrackAdded t # bs'" "Pairs ts bs'"
    then show ?thesis using Cons.IH[OF _ Cons.prems(2)] Pairs_ConsI1 by simp
  next
    fix e bs' assume "bs = OnVideoTrackAdded t # OnVideoTrackEnabled e # bs'" "TrackID e = TrackID t" "Pairs ts bs'"
    then show ?thesis using Cons.IH[OF _ Cons.prems(2)] by simp
  qed
qed




lemma EnabledAfterAdded_append:
  "EnabledAfterAdded Ready bs \<Longrightarrow> EnabledAfterAdded Ready cs \<Longrightarrow> EnabledAfterAdded Ready (bs @ cs)"
proof (induction Ready bs rule: EnabledAfterAdded.induct)
  case (1 Ready)
  then show ?case by simp
next
  case (2 Ready a e bs)
  then show ?case by simp
next
  case (3 Ready e bs)
  then show ?case by simp
qed (auto elim: EnabledAfterAdded.elims)

subsection \<open>Closures and the drain\<close>

lemma SameSurfaces_refl: "SameSurfaces s s"
  by (simp add: SameSurfaces_def)

lemma SameSurfaces_trans: "SameSurfaces s s' \<Longrightarrow> SameSurfaces s' s'' \<Longrightarrow> SameSurfaces s s''"
  by (simp add: SameSurfaces_def)

lemma SameSurfaces_eq: "VideoSinks s' = VideoSinks s \<Longrightarrow> SameSurfaces s s'"
  by (simp add: SameSurfaces_def)

lemma SameSurfaces_GetTexture: "SameSurfaces s s' \<Longrightarrow> GetTexture Key s' = GetTexture Key s"
  unfolding SameSurfaces_def GetTexture_def
  by (erule_tac x = Key in allE) (auto split: option.splits)


lemma SameSurfaces_IsBound: "SameSurfaces s s' \<Longrightarrow> IsBound Material s' Key = IsBound Material s Key"
  unfolding SameSurfaces_def IsBound_def
  by (erule_tac x = Key in allE) (auto split: option.splits)

lemma FirstEnabled_TrackID: "FirstEnabled Tid es = Some (e, rest) \<Longrightarrow> TrackID e = Tid"
  by (induction es arbitrary: e rest) (auto split: if_splits option.splits)

lemma BufferedLambdaBody_frame:
  "VideoSinks (BufferedLambdaBody p t s) = VideoSinks s"
  "RemoteParticipants (BufferedLambdaBody p t s) = RemoteParticipants s"
  "BufferedAddedVideoTracks (BufferedLambdaBody p t s) = BufferedAddedVideoTracks s"
  "BufferedVideoTracks (BufferedLambdaBody p t s) = BufferedVideoTracks s"
  by (simp_all add: BufferedLambdaBody_def BroadcastVideoTrackAdded_def
      BroadcastVideoTrackEnabled_def BroadcastEvent_def Let_def split: option.splits prod.splits)

lemma BufferedLambdaBody_Broadcasts:
  "Broadcasts (BufferedLambdaBody p t s) =
     Broadcasts s @ OnVideoTrackAdded t #
       (case BufferedEnabledVideoTracks s p of
          None \<Rightarrow> []
        | Some EnabledTracks \<Rightarrow>
            (case FirstEnabled (TrackID t) EnabledTracks of
               None \<Rightarrow> []
             | Some (e, rest) \<Rightarrow> [OnVideoTrackEnabled e]))"
  by (simp add: BufferedLambdaBody_def BroadcastVideoTrackAdded_def
      BroadcastVideoTrackEnabled_def BroadcastEvent_def Let_def split: option.splits prod.splits)

lemma Invoke_frame:
  "VideoSinks (Invoke F s) = VideoSinks s"
  "RemoteParticipants (Invoke F s) = RemoteParticipants s"
  "BufferedAddedVideoTracks (Invoke F s) = BufferedAddedVideoTracks s"
  "BufferedVideoTracks (Invoke F s) = BufferedVideoTracks s"
  by (cases F; simp add: BufferedLambdaBody_frame BroadcastVideoTrackAdded_def BroadcastEvent_def)+

lemma Invoke_Pairs:
  "\<exists>bs. Broadcasts (Invoke F s) = Broadcasts s @ bs \<and> Pairs [LambdaTrack F] bs"
proof (cases F)
  case (AddedLambda t)
  then show ?thesis by (simp add: BroadcastVideoTrackAdded_def BroadcastEvent_def)
next
  case (BufferedLambda p t)
  then show ?thesis
    by (auto simp: BufferedLambdaBody_Broadcasts dest: FirstEnabled_TrackID split: option.splits)
qed

lemma fold_Invoke_frame:
  "VideoSinks (fold Invoke Fs s) = VideoSinks s"
  "RemoteParticipants (fold Invoke Fs s) = RemoteParticipants s"
  "BufferedAddedVideoTracks (fold Invoke Fs s) = BufferedAddedVideoTracks s"
  "BufferedVideoTracks (fold Invoke Fs s) = BufferedVideoTracks s"
  by (induction Fs arbitrary: s; simp add: Invoke_frame)+


lemma OnTextureCreated_cases:
  assumes "OnTextureCreated Tid F s = Inr s'"
  shows "(GetTexture Tid s \<noteq> None \<and> s' = Invoke F s) \<or>
         (GetTexture Tid s = None \<and>
          (\<exists>Sink. VideoSinks s Tid = Some Sink \<and> Texture Sink = None \<and>
             s' = s\<lparr>VideoSinks := (VideoSinks s)(Tid \<mapsto> Sink\<lparr>OnTexCreated := OnTexCreated Sink @ [F]\<rparr>)\<rparr>))"
  using assms by (auto simp: OnTextureCreated_def GetTexture_def split: option.splits)


lemma OnTextureCreated_SameSurfaces:
  assumes "OnTextureCreated Tid F s = Inr s'"
  shows "SameSurfaces s s'"
  using OnTextureCreated_cases[OF assms]
  by (auto simp: SameSurfaces_def Invoke_frame)

lemma OnTextureCreated_frame:
  assumes "OnTextureCreated Tid F s = Inr s'"
  shows "RemoteParticipants s' = RemoteParticipants s"
    and "BufferedAddedVideoTracks s' = BufferedAddedVideoTracks s"
    and "BufferedVideoTracks s' = BufferedVideoTracks s"
  using OnTextureCreated_cases[OF assms] by (auto simp: Invoke_frame)

lemma OnTextureCreated_Pairs:
  assumes "OnTextureCreated Tid F s = Inr s'"
  shows "\<exists>bs. Broadcasts s' = Broadcasts s @ bs \<and>
           Pairs (if GetTexture Tid s \<noteq> None then [LambdaTrack F] else []) bs"
  using OnTextureCreated_cases[OF assms] Invoke_Pairs[of F s] by auto

lemma OnTextureCreated_LambdasFit:
  assumes "OnTextureCreated Tid F s = Inr s'" "LambdasFit s" "TrackID (LambdaTrack F) = Tid"
  shows "LambdasFit s'"
  using OnTextureCreated_cases[OF assms(1)] assms(2,3)
  by (auto simp: LambdasFit_def Invoke_frame split: if_splits)

lemma ProcessAddedTracks_SameSurfaces:
  "ProcessAddedTracks p ts s = Inr s' \<Longrightarrow> SameSurfaces s s'"
proof (induction ts arbitrary: s)
  case Nil
  then show ?case by (simp add: SameSurfaces_refl)
next
  case (Cons t ts)
  then obtain s1 where s1: "OnTextureCreated (TrackID t) (BufferedLambda p t) s = Inr s1"
      "ProcessAddedTracks p ts s1 = Inr s'"
    by (auto split: sum.splits)
  show ?case
    using OnTextureCreated_SameSurfaces[OF s1(1)] Cons.IH[OF s1(2)] by (rule SameSurfaces_trans)
qed

lemma ProcessAddedTracks_frame:
  "ProcessAddedTracks p ts s = Inr s' \<Longrightarrow>
     RemoteParticipants s' = RemoteParticipants s \<and>
     BufferedAddedVideoTracks s' = BufferedAddedVideoTracks s \<and>
     BufferedVideoTracks s' = BufferedVideoTracks s"
proof (induction ts arbitrary: s)
  case Nil
  then show ?case by simp
next
  case (Cons t ts)
  then obtain s1 where s1: "OnTextureCreated (TrackID t) (BufferedLambda p t) s = Inr s1"
      "ProcessAddedTracks p ts s1 = Inr s'"
    by (auto split: sum.splits)
  show ?case
    using OnTextureCreated_frame[OF s1(1)] Cons.IH[OF s1(2)] by simp
qed

lemma ProcessAddedTracks_LambdasFit:
  "ProcessAddedTracks p ts s = Inr s' \<Longrightarrow> LambdasFit s \<Longrightarrow> LambdasFit s'"
proof (induction ts arbitrary: s)
  case Nil
  then show ?case by simp
next
  case (Cons t ts)
  then obtain s1 where s1: "OnTextureCreated (TrackID t) (BufferedLambda p t) s = Inr s1"
      "ProcessAddedTracks p ts s1 = Inr s'"
    by (auto split: sum.splits)
  have "LambdasFit s1" using OnTextureCreated_LambdasFit[OF s1(1) Cons.prems(2)] by simp
  then show ?case using Cons.IH[OF s1(2)] by simp
qed

lemma ProcessAddedTracks_Pairs:
  "ProcessAddedTracks p ts s = Inr s' \<Longrightarrow>
     \<exists>bs. Broadcasts s' = Broadcasts s @ bs \<and>
          Pairs (filter (\<lambda>t. GetTexture (TrackID t) s \<noteq> None) ts) bs"
proof (induction ts arbitrary: s)
  case Nil
  then show ?case by simp
next
  case (Cons t ts)
  then obtain s1 where s1: "OnTextureCreated (TrackID t) (BufferedLambda p t) s = Inr s1"
      "ProcessAddedTracks p ts s1 = Inr s'"
    by (auto split: sum.splits)
  obtain bs where bs: "Broadcasts s1 = Broadcasts s @ bs"
      "Pairs (if GetTexture (TrackID t) s \<noteq> None then [t] else []) bs"
    using OnTextureCreated_Pairs[OF s1(1)] by (auto split: if_splits)
  obtain cs where cs: "Broadcasts s' = Broadcasts s1 @ cs"
      "Pairs (filter (\<lambda>t. GetTexture (TrackID t) s1 \<noteq> None) ts) cs"
    using Cons.IH[OF s1(2)] by blast
  have same: "\<And>Key. GetTexture Key s1 = GetTexture Key s"
    using OnTextureCreated_SameSurfaces[OF s1(1)] by (rule SameSurfaces_GetTexture)
  have "Pairs ((if GetTexture (TrackID t) s \<noteq> None then [t] else []) @
               filter (\<lambda>t. GetTexture (TrackID t) s \<noteq> None) ts) (bs @ cs)"
    using bs(2) cs(2) unfolding same by (rule Pairs_append)
  then have "Pairs (filter (\<lambda>t. GetTexture (TrackID t) s \<noteq> None) (t # ts)) (bs @ cs)"
    by (simp split: if_splits)
  with bs(1) cs(1) show ?case by auto
qed


subsection \<open>The handlers\<close>



lemma ProcessBufferedVideoTracks_summary:
  assumes "ProcessBufferedVideoTracks p s = Inr s'"
  shows "SameSurfaces s s'"
    and "RemoteParticipants s' = RemoteParticipants s"
    and "BufferedAddedVideoTracks s' = (BufferedAddedVideoTracks s)(p := None)"
    and "BufferedVideoTracks s' = BufferedVideoTracks s"
    and "LambdasFit s \<Longrightarrow> LambdasFit s'"
    and "\<exists>bs. Broadcasts s' = Broadcasts s @ bs \<and>
           Pairs (filter (\<lambda>t. GetTexture (TrackID t) s \<noteq> None)
                    (case BufferedAddedVideoTracks s p of None \<Rightarrow> [] | Some ts \<Rightarrow> ts)) bs"
proof -
  show "SameSurfaces s s'"
  proof (cases "BufferedAddedVideoTracks s p")
    case None
    with assms show ?thesis by (simp add: ProcessBufferedVideoTracks_def SameSurfaces_refl)
  next
    case (Some ts)
    with assms obtain s1 where s1: "ProcessAddedTracks p ts s = Inr s1"
        "s' = s1\<lparr>BufferedAddedVideoTracks := (BufferedAddedVideoTracks s1)(p := None)\<rparr>"
      by (auto simp: ProcessBufferedVideoTracks_def split: sum.splits)
    have "SameSurfaces s1 s'" using s1(2) by (simp add: SameSurfaces_def)
    with ProcessAddedTracks_SameSurfaces[OF s1(1)] show ?thesis by (rule SameSurfaces_trans)
  qed
next
  show "RemoteParticipants s' = RemoteParticipants s"
    using assms
    by (auto simp: ProcessBufferedVideoTracks_def split: option.splits sum.splits
        dest: ProcessAddedTracks_frame)
next
  show "BufferedAddedVideoTracks s' = (BufferedAddedVideoTracks s)(p := None)"
    using assms
    by (auto simp: ProcessBufferedVideoTracks_def split: option.splits sum.splits
        dest: ProcessAddedTracks_frame)
next
  show "BufferedVideoTracks s' = BufferedVideoTracks s"
    using assms
    by (auto simp: ProcessBufferedVideoTracks_def split: option.splits sum.splits
        dest: ProcessAddedTracks_frame)
next
  assume fit: "LambdasFit s"
  show "LambdasFit s'"
  proof (cases "BufferedAddedVideoTracks s p")
    case None
    with assms fit show ?thesis by (simp add: ProcessBufferedVideoTracks_def)
  next
    case (Some ts)
    with assms obtain s1 where s1: "ProcessAddedTracks p ts s = Inr s1"
        "s' = s1\<lparr>BufferedAddedVideoTracks := (BufferedAddedVideoTracks s1)(p := None)\<rparr>"
      by (auto simp: ProcessBufferedVideoTracks_def split: sum.splits)
    have "LambdasFit s1" using ProcessAddedTracks_LambdasFit[OF s1(1) fit] .
    with s1(2) show ?thesis by (simp add: LambdasFit_def)
  qed
next
  show "\<exists>bs. Broadcasts s' = Broadcasts s @ bs \<and>
           Pairs (filter (\<lambda>t. GetTexture (TrackID t) s \<noteq> None)
                    (case BufferedAddedVideoTracks s p of None \<Rightarrow> [] | Some ts \<Rightarrow> ts)) bs"
  proof (cases "BufferedAddedVideoTracks s p")
    case None
    with assms show ?thesis by (simp add: ProcessBufferedVideoTracks_def)
  next
    case (Some ts)
    with assms obtain s1 where s1: "ProcessAddedTracks p ts s = Inr s1"
        "s' = s1\<lparr>BufferedAddedVideoTracks := (BufferedAddedVideoTracks s1)(p := None)\<rparr>"
      by (auto simp: ProcessBufferedVideoTracks_def split: sum.splits)
    from ProcessAddedTracks_Pairs[OF s1(1)] s1(2) Some show ?thesis by simp
  qed
qed

lemma OnParticipantKnown_summary:
  assumes "OnParticipantKnown Info s = Inr s'"
  shows "SameSurfaces s s'"
    and "RemoteParticipants s' = (RemoteParticipants s)(UserID Info \<mapsto> Info)"
    and "BufferedAddedVideoTracks s' = (BufferedAddedVideoTracks s)(UserID Info := None)"
    and "LambdasFit s \<Longrightarrow> LambdasFit s'"
    and "\<exists>bs. Broadcasts s' = Broadcasts s @ bs \<and>
           Pairs (filter (\<lambda>t. GetTexture (TrackID t) s \<noteq> None)
                    (case BufferedAddedVideoTracks s (UserID Info) of None \<Rightarrow> [] | Some ts \<Rightarrow> ts)) bs"
proof -
  let ?s1 = "s\<lparr>RemoteParticipants := (RemoteParticipants s)(UserID Info \<mapsto> Info)\<rparr>"
  have p: "ProcessBufferedVideoTracks (UserID Info) ?s1 = Inr s'"
    using assms by (simp add: OnParticipantKnown_def)
  have g: "\<And>Key. GetTexture Key ?s1 = GetTexture Key s" by (simp add: GetTexture_def)
  note sm = ProcessBufferedVideoTracks_summary[OF p]
  show "SameSurfaces s s'" using sm(1) by (simp add: SameSurfaces_def)
  show "RemoteParticipants s' = (RemoteParticipants s)(UserID Info \<mapsto> Info)" using sm(2) by simp
  show "BufferedAddedVideoTracks s' = (BufferedAddedVideoTracks s)(UserID Info := None)" using sm(3) by simp
  show "LambdasFit s \<Longrightarrow> LambdasFit s'" using sm(5) by (simp add: LambdasFit_def)
  show "\<exists>bs. Broadcasts s' = Broadcasts s @ bs \<and>
           Pairs (filter (\<lambda>t. GetTexture (TrackID t) s \<noteq> None)
                    (case BufferedAddedVideoTracks s (UserID Info) of None \<Rightarrow> [] | Some ts \<Rightarrow> ts)) bs"
    using sm(6) unfolding g by simp
qed

lemma TextureCreated_sinks:
  "VideoSinks (TextureCreated Tid T s) =
     (case VideoSinks s Tid of
        None \<Rightarrow> VideoSinks s
      | Some Sink \<Rightarrow>
          (case Texture Sink of
             Some T' \<Rightarrow> VideoSinks s
           | None \<Rightarrow> (VideoSinks s)(Tid \<mapsto> Sink\<lparr>Texture := Some T, OnTexCreated := []\<rparr>)))"
  by (simp add: TextureCreated_def fold_Invoke_frame split: option.splits)



lemma TextureCreated_IsBound: "IsBound M (TextureCreated Tid T s) Key = IsBound M s Key"
  by (auto simp: IsBound_def TextureCreated_sinks split: option.splits)


lemma Handle_added_eq:
  "Handle_remote_video_track_added t s =
     Inr (if RemoteParticipants s (ParticipantID t) \<noteq> None
          then s\<lparr>VideoSinks := (VideoSinks s)(TrackID t \<mapsto> make_FVideoSink\<lparr>OnTexCreated := [AddedLambda t]\<rparr>)\<rparr>
          else s\<lparr>VideoSinks := (VideoSinks s)(TrackID t \<mapsto> make_FVideoSink),
                 BufferedAddedVideoTracks :=
                   FindOrAddAdd (ParticipantID t) t (BufferedAddedVideoTracks s)\<rparr>)"
  by (simp add: Handle_remote_video_track_added_def OnTextureCreated_def make_FVideoSink_def Let_def)

lemma Handle_added_summary:
  assumes "Handle_remote_video_track_added t s = Inr s'"
  shows "Broadcasts s' = Broadcasts s"
    and "RemoteParticipants s' = RemoteParticipants s"
    and "Key \<noteq> TrackID t \<Longrightarrow> VideoSinks s' Key = VideoSinks s Key"
    and "LambdasFit s \<Longrightarrow> LambdasFit s'"
    and "IsBound M s' Key \<Longrightarrow> IsBound M s Key"
    and "GetTexture (TrackID t) s' = None"
  using assms unfolding Handle_added_eq
  by (auto simp: LambdasFit_def IsBound_def GetTexture_def make_FVideoSink_def split: if_splits option.splits)

lemma fold_HandleEnabled:
  "VideoSinks (fold HandleEnabled en s) = VideoSinks s \<and>
   RemoteParticipants (fold HandleEnabled en s) = RemoteParticipants s \<and>
   BufferedAddedVideoTracks (fold HandleEnabled en s) = BufferedAddedVideoTracks s \<and>
   Broadcasts (fold HandleEnabled en s) =
     Broadcasts s @ map OnVideoTrackEnabled (filter (\<lambda>t. GetTexture (TrackID t) s \<noteq> None) en)"
proof (induction en arbitrary: s)
  case Nil
  then show ?case by simp
next
  case (Cons t en)
  have g: "\<And>Key. GetTexture Key (HandleEnabled t s) = GetTexture Key s"
    by (simp add: HandleEnabled_def GetTexture_def BroadcastVideoTrackEnabled_def BroadcastEvent_def)
  have h: "VideoSinks (HandleEnabled t s) = VideoSinks s"
    "RemoteParticipants (HandleEnabled t s) = RemoteParticipants s"
    "BufferedAddedVideoTracks (HandleEnabled t s) = BufferedAddedVideoTracks s"
    "Broadcasts (HandleEnabled t s) =
       Broadcasts s @ (if GetTexture (TrackID t) s \<noteq> None then [OnVideoTrackEnabled t] else [])"
    by (simp_all add: HandleEnabled_def BroadcastVideoTrackEnabled_def BroadcastEvent_def)
  show ?case using Cons.IH[of "HandleEnabled t s"] unfolding g by (simp add: h)
qed

lemma fold_HandleDisabled:
  "VideoSinks (fold HandleDisabled dis s) = VideoSinks s \<and>
   RemoteParticipants (fold HandleDisabled dis s) = RemoteParticipants s \<and>
   BufferedAddedVideoTracks (fold HandleDisabled dis s) = BufferedAddedVideoTracks s \<and>
   BufferedEnabledVideoTracks (fold HandleDisabled dis s) = BufferedEnabledVideoTracks s \<and>
   Broadcasts (fold HandleDisabled dis s) = Broadcasts s @ map OnVideoTrackDisabled dis"
  by (induction dis arbitrary: s) (simp_all add: HandleDisabled_def BroadcastEvent_def)

lemma Handle_vfs_event_summary:
  "VideoSinks (Handle_vfs_event en dis s) = VideoSinks s"
  "RemoteParticipants (Handle_vfs_event en dis s) = RemoteParticipants s"
  "BufferedAddedVideoTracks (Handle_vfs_event en dis s) = BufferedAddedVideoTracks s"
  "Broadcasts (Handle_vfs_event en dis s) =
     Broadcasts s @ map OnVideoTrackEnabled (filter (\<lambda>t. GetTexture (TrackID t) s \<noteq> None) en)
       @ map OnVideoTrackDisabled dis"
  using fold_HandleEnabled[of en s] fold_HandleDisabled[of dis "fold HandleEnabled en s"]
  by (simp_all add: Handle_vfs_event_def)

lemma BindMaterial_IsBound:
  "IsBound M (BindMaterial Material V s) Key =
     (if M = Material then Key = V \<and> VideoSinks s V \<noteq> None else IsBound M s Key)"
  by (auto simp: IsBound_def BindMaterial_def UnbindFromOthers_def FVideoSink_BindMaterial_def
      FVideoSink_UnbindMaterial_def Let_def split: option.splits if_splits)

lemma UnbindMaterial_IsBound:
  "IsBound M (UnbindMaterial Material V s) Key =
     (IsBound M s Key \<and> \<not> (M = Material \<and> Key = V))"
  by (auto simp: IsBound_def UnbindMaterial_def FVideoSink_UnbindMaterial_def
      split: option.splits if_splits)

lemma Bind_frame:
  "Broadcasts (BindMaterial M V s) = Broadcasts s"
  "Broadcasts (UnbindMaterial M V s) = Broadcasts s"
  "(VideoSinks (BindMaterial M V s) Key = None) = (VideoSinks s Key = None)"
  "(VideoSinks (UnbindMaterial M V s) Key = None) = (VideoSinks s Key = None)"
  "GetTexture Key (BindMaterial M V s) = GetTexture Key s"
  "GetTexture Key (UnbindMaterial M V s) = GetTexture Key s"
  by (auto simp: BindMaterial_def UnbindMaterial_def UnbindFromOthers_def GetTexture_def
      FVideoSink_BindMaterial_def FVideoSink_UnbindMaterial_def Let_def split: option.splits if_splits)


subsection \<open>Steps and runs\<close>

lemma Handle_removed_summary:
  assumes "Handle_remote_video_track_removed t s = Inr s'"
  shows "s' = s\<lparr>VideoSinks := (VideoSinks s)(TrackID t := None),
                 Broadcasts := Broadcasts s @ [OnVideoTrackRemoved t]\<rparr>"
    and "VideoSinks s (TrackID t) \<noteq> None"
  using assms
  by (auto simp: Handle_remote_video_track_removed_def BroadcastEvent_def split: option.splits)



lemma step_IsBound:
  assumes "step e s = Inr s'" "IsBound M s' Key"
  shows "IsBound M s Key \<or> e = CallBindMaterial M Key"
proof (cases e)
  case (RemoteVideoTrackAdded t)
  with assms show ?thesis using Handle_added_summary(5)[of t s s'] by simp
next
  case (RemoteVideoTrackRemoved t)
  with assms show ?thesis using Handle_removed_summary(1)[of t s s']
    by (auto simp: IsBound_def split: if_splits)
next
  case (VfsEvent en dis)
  with assms show ?thesis using Handle_vfs_event_summary(1)[of en dis s]
    by (auto simp: IsBound_def)
next
  case (ParticipantKnown Info)
  with assms show ?thesis
    using SameSurfaces_IsBound[OF OnParticipantKnown_summary(1)[of Info s s']] by simp
next
  case (SurfaceCreated Tid T)
  with assms show ?thesis by (auto simp: TextureCreated_IsBound)
next
  case (CallBindMaterial M' V)
  with assms show ?thesis by (auto simp: BindMaterial_IsBound split: if_splits)
next
  case (CallUnbindMaterial M' V)
  with assms show ?thesis by (auto simp: UnbindMaterial_IsBound)
qed

lemma step_OneSinkPerMaterial:
  assumes "step e s = Inr s'" "OneSinkPerMaterial s"
  shows "OneSinkPerMaterial s'"
proof (cases "\<exists>M V. e = CallBindMaterial M V")
  case True
  then obtain M V where e: "e = CallBindMaterial M V" by blast
  with assms(1) have s': "s' = BindMaterial M V s" by simp
  show ?thesis using assms(2) unfolding OneSinkPerMaterial_def s'
    by (auto simp: BindMaterial_IsBound split: if_splits)
next
  case False
  then have "\<And>M Key. IsBound M s' Key \<Longrightarrow> IsBound M s Key"
    using step_IsBound[OF assms(1)] by blast
  with assms(2) show ?thesis unfolding OneSinkPerMaterial_def by blast
qed




lemma run_append: "run (es @ fs) s = (case run es s of Inl err \<Rightarrow> Inl err | Inr s' \<Rightarrow> run fs s')"
  by (induction es arbitrary: s) (auto split: sum.splits)



lemma run_OneSinkPerMaterial: "run es s = Inr s' \<Longrightarrow> OneSinkPerMaterial s \<Longrightarrow> OneSinkPerMaterial s'"
proof (induction es arbitrary: s)
  case Nil
  then show ?case by simp
next
  case (Cons e es)
  then obtain s1 where s1: "step e s = Inr s1" "run es s1 = Inr s'" by (auto split: sum.splits)
  from step_OneSinkPerMaterial[OF s1(1) Cons.prems(2)] Cons.IH[OF s1(2)] show ?case by simp
qed


lemma Initialize_OneSinkPerMaterial: "OneSinkPerMaterial (Initialize cam scr)"
  by (simp add: OneSinkPerMaterial_def IsBound_def Initialize_def make_FVideoSink_def)


subsection \<open>Evaluation of closed instances\<close>


subsection \<open>C1: one added notification, after the event, the participant and the surface\<close>




subsection \<open>Further facts about the drain and the inline handlers\<close>











subsection \<open>C2: enabled notifications and added notifications\<close>




subsection \<open>C6: a track-enabled event\<close>



subsection \<open>C7: failures of the handlers\<close>




subsection \<open>C9: a track identifier without a sink\<close>

text \<open>
  C9, as stated, fails for \<open>BindMaterial\<close>: called for a track identifier without a sink
  it still unbinds the material from the sink it was bound to.
\<close>

theorem bind_to_missing_track_unbinds:
  "VideoSinks Bound ''v9'' = None
   \<and> map_option Materials (VideoSinks Bound ''local-camera'') = Some {7}
   \<and> map_option Materials (VideoSinks (BindMaterial 7 ''v9'' Bound) ''local-camera'') = Some {}"
  by (simp add: BindMaterial_def UnbindFromOthers_def FVideoSink_BindMaterial_def
      FVideoSink_UnbindMaterial_def Initialize_def make_FVideoSink_def)

text \<open>
  C9, amended.  For a track identifier without a sink, \<open>GetTexture\<close> returns null and
  \<open>UnbindMaterial\<close> changes nothing; \<open>BindMaterial\<close> only runs its loop: it adds no
  sink, binds the material to no sink, leaves it bound to none, and leaves the bindings
  of every other material as they were.
\<close>

theorem missing_track_binds_nothing:
  assumes "VideoSinks s VideoTrackID = None"
  shows "GetTexture VideoTrackID s = None
     \<and> UnbindMaterial Material VideoTrackID s = s
     \<and> BindMaterial Material VideoTrackID s =
         s\<lparr>VideoSinks := UnbindFromOthers Material VideoTrackID (VideoSinks s)\<rparr>
     \<and> VideoSinks (BindMaterial Material VideoTrackID s) VideoTrackID = None
     \<and> (\<forall>Key. \<not> IsBound Material (BindMaterial Material VideoTrackID s) Key)
     \<and> (\<forall>M Key. M \<noteq> Material \<longrightarrow>
           IsBound M (BindMaterial Material VideoTrackID s) Key = IsBound M s Key)"
proof -
  have 1: "GetTexture VideoTrackID s = None" using assms by (simp add: GetTexture_def)
  have 2: "UnbindMaterial Material VideoTrackID s = s" using assms by (simp add: UnbindMaterial_def)
  have 3: "BindMaterial Material VideoTrackID s =
         s\<lparr>VideoSinks := UnbindFromOthers Material VideoTrackID (VideoSinks s)\<rparr>"
    using assms by (simp add: BindMaterial_def UnbindFromOthers_def)
  have 4: "VideoSinks (BindMaterial Material VideoTrackID s) VideoTrackID = None"
    using assms by (simp add: Bind_frame)
  have 5: "\<forall>Key. \<not> IsBound Material (BindMaterial Material VideoTrackID s) Key"
    using assms by (simp add: BindMaterial_IsBound)
  have 6: "\<forall>M Key. M \<noteq> Material \<longrightarrow>
           IsBound M (BindMaterial Material VideoTrackID s) Key = IsBound M s Key"
    by (simp add: BindMaterial_IsBound)
  from 1 2 3 4 5 6 show ?thesis by blast
qed

theorem missing_track_binds_nothing_witness:
  "VideoSinks Bound ''v9'' = None
   \<and> GetTexture ''v9'' Bound = None
   \<and> UnbindMaterial 7 ''v9'' Bound = Bound
   \<and> VideoSinks (BindMaterial 7 ''v9'' Bound) ''v9'' = None
   \<and> \<not> IsBound 7 (BindMaterial 7 ''v9'' Bound) ''local-camera''
   \<and> IsBound 7 Bound ''local-camera''"
proof -
  have a: "VideoSinks Bound ''v9'' = None"
    by (simp add: BindMaterial_def UnbindFromOthers_def Initialize_def)
  have b: "IsBound 7 Bound ''local-camera''"
    by (simp add: BindMaterial_IsBound Initialize_def)
  from missing_track_binds_nothing[OF a, of 7] a b show ?thesis by blast
qed

subsection \<open>C10: a material is bound to one sink\<close>

text \<open>
  C10.  After \<open>BindMaterial\<close> the material is bound to no sink but the one stored under
  \<open>VideoTrackID\<close>: every other sink has unbound it, and the sink found under
  \<open>VideoTrackID\<close> has bound it.  The call keeps the property that no material is bound
  to the sinks of two tracks, and the property holds after every run of the subsystem.
\<close>

theorem material_bound_to_one_sink:
  "(\<forall>Key. IsBound Material (BindMaterial Material VideoTrackID s) Key \<longrightarrow> Key = VideoTrackID)
   \<and> (\<forall>Key Sink. Key \<noteq> VideoTrackID \<longrightarrow> VideoSinks s Key = Some Sink \<longrightarrow>
         VideoSinks (BindMaterial Material VideoTrackID s) Key = Some (FVideoSink_UnbindMaterial Material Sink))
   \<and> (\<forall>Sink. VideoSinks s VideoTrackID = Some Sink \<longrightarrow>
         VideoSinks (BindMaterial Material VideoTrackID s) VideoTrackID = Some (FVideoSink_BindMaterial Material Sink))
   \<and> (OneSinkPerMaterial s \<longrightarrow> OneSinkPerMaterial (BindMaterial Material VideoTrackID s))
   \<and> (run es (Initialize LocalCameraTrackID LocalScreenshareTrackID) = Inr s' \<longrightarrow> OneSinkPerMaterial s')"
proof -
  have 1: "\<forall>Key. IsBound Material (BindMaterial Material VideoTrackID s) Key \<longrightarrow> Key = VideoTrackID"
    by (simp add: BindMaterial_IsBound)
  have 2: "\<forall>Key Sink. Key \<noteq> VideoTrackID \<longrightarrow> VideoSinks s Key = Some Sink \<longrightarrow>
         VideoSinks (BindMaterial Material VideoTrackID s) Key = Some (FVideoSink_UnbindMaterial Material Sink)"
    by (auto simp: BindMaterial_def UnbindFromOthers_def Let_def split: option.splits)
  have 3: "\<forall>Sink. VideoSinks s VideoTrackID = Some Sink \<longrightarrow>
         VideoSinks (BindMaterial Material VideoTrackID s) VideoTrackID = Some (FVideoSink_BindMaterial Material Sink)"
    by (auto simp: BindMaterial_def UnbindFromOthers_def Let_def split: option.splits)
  have 4: "OneSinkPerMaterial s \<longrightarrow> OneSinkPerMaterial (BindMaterial Material VideoTrackID s)"
    using step_OneSinkPerMaterial[of "CallBindMaterial Material VideoTrackID" s] by simp
  have 5: "run es (Initialize LocalCameraTrackID LocalScreenshareTrackID) = Inr s' \<longrightarrow> OneSinkPerMaterial s'"
    using run_OneSinkPerMaterial Initialize_OneSinkPerMaterial by blast
  from 1 2 3 4 5 show ?thesis by blast
qed

theorem material_bound_to_one_sink_witness:
  "IsBound 7 Bound ''local-camera''
   \<and> IsBound 7 (BindMaterial 7 ''local-screenshare'' Bound) ''local-screenshare''
   \<and> \<not> IsBound 7 (BindMaterial 7 ''local-screenshare'' Bound) ''local-camera''
   \<and> run [CallBindMaterial 7 ''local-camera'', CallBindMaterial 7 ''local-screenshare''] Fresh
       = Inr (BindMaterial 7 ''local-screenshare'' Bound)
   \<and> OneSinkPerMaterial (BindMaterial 7 ''local-screenshare'' Bound)"
proof -
  have r: "run [CallBindMaterial 7 ''local-camera'', CallBindMaterial 7 ''local-screenshare''] Fresh
       = Inr (BindMaterial 7 ''local-screenshare'' Bound)" by simp
  have a: "IsBound 7 Bound ''local-camera''"
    by (simp add: BindMaterial_IsBound Initialize_def)
  have b: "IsBound 7 (BindMaterial 7 ''local-screenshare'' Bound) ''local-screenshare''"
    by (simp add: BindMaterial_IsBound Bind_frame Initialize_def)
  note t = material_bound_to_one_sink[of 7 "''local-screenshare''" Bound
      "[CallBindMaterial 7 ''local-camera'', CallBindMaterial 7 ''local-screenshare'']"
      "''local-camera''" "''local-screenshare''" "BindMaterial 7 ''local-screenshare'' Bound"]
  from t have c: "\<not> IsBound 7 (BindMaterial 7 ''local-screenshare'' Bound) ''local-camera''"
    by auto
  from t r have d: "OneSinkPerMaterial (BindMaterial 7 ''local-screenshare'' Bound)" by blast
  from a b c d r show ?thesis by blast
qed

subsection \<open>C3: a track-removed event\<close>







subsection \<open>C4: the drain of a participant\<close>




subsection \<open>C5: the order of the replayed tracks\<close>




end
